theory Spec2Isabelle
  imports Main "HOL-Library.Finite_Map"
begin

section \<open>Python values\<close>

text \<open>
  The values found in resource bodies, in the keyword arguments of a cause and in the
  criteria of a handler. Python compares them with \<open>==\<close>; on this datatype that is HOL
  equality: mappings are finite maps (no order), booleans are the integers 0 and 1 (as
  \<open>True == 1\<close> in Python), floating-point numbers are left out. \<open>PUnset\<close> is the
  module's private marker \<open>_UNSET.token\<close>, which \<open>registries.py\<close> passes to
  \<open>dicts.resolve\<close> as the value of a missing path.
\<close>

datatype pyval =
    PNone
  | PInt int
  | PStr string
  | PList "pyval list"
  | PDict "(string, pyval) fmap"
  | PUnset

type_synonym kwargs = "(string, pyval) fmap"

text \<open>
  \<open>d.get(key)\<close> on a value that is expected to be a mapping. Bodies, their
  \<open>metadata\<close>, \<open>labels\<close> and \<open>annotations\<close> are declared as mappings; a value of
  another shape holds no key here.
\<close>

fun py_lookup :: "pyval \<Rightarrow> string \<Rightarrow> pyval option" where
  "py_lookup (PDict m) key = fmlookup m key"
| "py_lookup _ key = None"

definition dict_get :: "pyval \<Rightarrow> string \<Rightarrow> pyval \<Rightarrow> pyval" where
  "dict_get d key dflt = (case py_lookup d key of Some v \<Rightarrow> v | None \<Rightarrow> dflt)"

text \<open>
  Modelled from the spec: \<open>dicts.resolve(d, field, default)\<close> of
  \<open>kopf._cogs.structs.dicts\<close>, which is not part of the source file. The spec has it
  walk the field path through the nested mapping and give the marker of absence for a
  missing path.
\<close>

fun resolve :: "pyval \<Rightarrow> string list \<Rightarrow> pyval \<Rightarrow> pyval" where
  "resolve d [] dflt = d"
| "resolve d (key # path) dflt =
     (case py_lookup d key of None \<Rightarrow> dflt | Some v \<Rightarrow> resolve v path dflt)"

section \<open>Handlers and causes\<close>

text \<open>
  Modelled from the spec: the classes of \<open>kopf._core.intents.handlers\<close>,
  \<open>causes\<close>, \<open>filters\<close> and \<open>kopf._cogs.structs.references\<close>, which the source
  file imports and which are not part of it. Their fields are those that
  \<open>registries.py\<close> reads, with the types of the spec's data model.
  Names that clash with Isabelle keep the source's name with a prime (\<open>id'\<close>,
  \<open>value'\<close>, \<open>when'\<close>); a leading underscore is dropped (\<open>_fallback\<close>,
  \<open>_deduplicated\<close>, \<open>_matches_resource\<close>).
\<close>

type_synonym HandlerId = string

text \<open>A callback is opaque to the registries except for its object identity \<open>id(fn)\<close>.\<close>

type_synonym fn_ref = nat

definition py_id :: "fn_ref \<Rightarrow> nat" where
  "py_id f = f"

datatype Activity = STARTUP | CLEANUP | AUTHENTICATION | PROBE

text \<open>
  The reason tags: those of changing causes and the two webhook types
  (\<open>causes.Reason\<close> and \<open>causes.WebhookType\<close>), in one type since the handler's and
  the cause's \<open>reason\<close> field carries either.
\<close>

datatype Reason = CREATE | UPDATE | DELETE | RESUME | GONE | VALIDATING | MUTATING

datatype MetaFilterToken = PRESENT | ABSENT

text \<open>
  A criterion of a handler (\<open>value\<close>, \<open>old\<close>, \<open>new\<close>, or the value of a key in
  \<open>labels\<close>/\<open>annotations\<close>) is any Python object: a plain value (\<open>None\<close> included),
  one of the two tokens, or a callable. A callable gets the value under test and the
  keyword arguments; it is a function, so it gives the same answer on the same arguments.
\<close>

datatype filter_value =
    Plain pyval
  | Token MetaFilterToken
  | Callable "pyval \<Rightarrow> kwargs \<Rightarrow> bool"

fun callable :: "filter_value \<Rightarrow> bool" where
  "callable (Callable f) = True"
| "callable _ = False"

text \<open>\<open>value(x, **kwargs)\<close>; the source calls it only after \<open>callable(value)\<close>.\<close>

fun call :: "filter_value \<Rightarrow> pyval \<Rightarrow> kwargs \<Rightarrow> bool" where
  "call (Callable f) x kw = f x kw"
| "call _ x kw = False"

type_synonym MetaFilter = "(string \<times> filter_value) list"

type_synonym FieldPath = "string list"

record Resource =
  group :: string
  version :: string
  plural :: string

text \<open>A selector names a group, a version and a plural name, each one optional.\<close>

record Selector =
  sel_group :: "string option"
  sel_version :: "string option"
  sel_plural :: "string option"

text \<open>
  Modelled from the spec: \<open>Selector.check(resource)\<close> of
  \<open>kopf._cogs.structs.references\<close>, which is not part of the source file: each part
  of the selector that is given has to equal the resource's, and a part left out accepts any.
\<close>

definition check :: "Selector \<Rightarrow> Resource \<Rightarrow> bool" where
  "check s r \<longleftrightarrow>
     (sel_group s = None \<or> sel_group s = Some (group r)) \<and>
     (sel_version s = None \<or> sel_version s = Some (version r)) \<and>
     (sel_plural s = None \<or> sel_plural s = Some (plural r))"

record Handler =
  id' :: HandlerId
  fn :: fn_ref

record ActivityHandler = Handler +
  activity :: "Activity option"
  fallback :: bool

datatype handler_class =
  IndexingHandler | WatchingHandler | SpawningHandler | ChangingHandler | WebhookHandler

text \<open>
  One record for every resource handler: \<open>cls\<close> is the class of the object (what
  \<open>isinstance\<close> tests); the fields after \<open>value'\<close> are those of the changing and
  webhook handlers and are read only for handlers of those classes.
\<close>

record ResourceHandler = Handler +
  cls :: handler_class
  selector :: "Selector option"
  labels :: "MetaFilter option"
  annotations :: "MetaFilter option"
  when' :: "(kwargs \<Rightarrow> bool) option"
  field :: "FieldPath option"
  value' :: filter_value
  reason :: "Reason option"
  initial :: "bool option"
  deleted :: "bool option"
  requires_finalizer :: "bool option"
  field_needs_change :: "bool option"
  old :: filter_value
  new :: filter_value
  operations :: "string list option"
  subresource :: "string option"

datatype cause_class =
  IndexingCause | WatchingCause | SpawningCause | ChangingCause | WebhookCause

record ResourceCause =
  ccls :: cause_class
  resource :: Resource
  body :: pyval
  kwargs :: kwargs
  reason :: "Reason option"
  initial :: bool
  deleted :: bool
  old :: pyval
  new :: pyval
  webhook :: "HandlerId option"
  operation :: "string option"
  subresource :: "string option"

text \<open>Python's truth value of an \<open>Optional[bool]\<close>: \<open>None\<close> counts as false.\<close>

fun truthy :: "bool option \<Rightarrow> bool" where
  "truthy None = False"
| "truthy (Some b) = b"

section \<open>Registries\<close>

text \<open>
  \<open>GenericRegistry\<close>: the list \<open>_handlers\<close>, in the order of registration.
\<close>

type_synonym 'h registry = "'h list"

definition append' :: "'h registry \<Rightarrow> 'h \<Rightarrow> 'h registry" where
  "append' handlers handler = handlers @ [handler]"

definition get_all_handlers :: "'h registry \<Rightarrow> 'h list" where
  "get_all_handlers handlers = handlers"

subsection \<open>Deduplication\<close>

text \<open>
  \<open>_deduplicated\<close>: the loop over \<open>src\<close> with the set \<open>seen_ids\<close> of the keys
  \<open>(id(handler.fn), handler.id)\<close> already yielded.
\<close>

fun deduplicated_loop ::
  "(nat \<times> HandlerId) set \<Rightarrow> 'a Handler_scheme list \<Rightarrow> 'a Handler_scheme list" where
  "deduplicated_loop seen_ids [] = []"
| "deduplicated_loop seen_ids (handler # src) =
     (let key = (py_id (fn handler), id' handler) in
      if key \<in> seen_ids then deduplicated_loop seen_ids src
      else handler # deduplicated_loop (insert key seen_ids) src)"

definition deduplicated :: "'a Handler_scheme list \<Rightarrow> 'a Handler_scheme list" where
  "deduplicated src = deduplicated_loop {} src"

subsection \<open>Activity registry\<close>

text \<open>
  \<open>ActivityRegistry.iter_handlers\<close>. Python reads the condition
  \<open>a is None or a == activity and not f\<close> as \<open>a is None or (a == activity and not f)\<close>,
  since \<open>and\<close> binds tighter than \<open>or\<close>. The first loop returns what it yields and the
  flag \<open>found\<close>; the second loop runs when the flag is still false.
\<close>

fun regular_loop ::
  "ActivityHandler list \<Rightarrow> Activity \<Rightarrow> bool \<Rightarrow> ActivityHandler list \<times> bool" where
  "regular_loop [] act found = ([], found)"
| "regular_loop (handler # rest) act found =
     (if activity handler = None \<or> (activity handler = Some act \<and> \<not> fallback handler)
      then (case regular_loop rest act True of (yielded, found') \<Rightarrow> (handler # yielded, found'))
      else regular_loop rest act found)"

fun fallback_loop :: "ActivityHandler list \<Rightarrow> Activity \<Rightarrow> ActivityHandler list" where
  "fallback_loop [] act = []"
| "fallback_loop (handler # rest) act =
     (if activity handler = None \<or> (activity handler = Some act \<and> fallback handler)
      then handler # fallback_loop rest act
      else fallback_loop rest act)"

definition activity_iter_handlers ::
  "ActivityHandler registry \<Rightarrow> Activity \<Rightarrow> ActivityHandler list" where
  "activity_iter_handlers handlers act =
     (case regular_loop handlers act False of
        (yielded, found) \<Rightarrow>
          if \<not> found then yielded @ fallback_loop handlers act else yielded)"

definition activity_get_handlers ::
  "ActivityHandler registry \<Rightarrow> Activity \<Rightarrow> ActivityHandler list" where
  "activity_get_handlers handlers act = deduplicated (activity_iter_handlers handlers act)"

section \<open>Identifiers of handlers\<close>

datatype error = ValueError string

text \<open>
  The objects \<open>get_callable_id\<close> tells apart, in the order of its tests: \<open>None\<close>; a
  \<open>functools.partial\<close> over \<open>c.func\<close>; any other object with the attribute
  \<open>__wrapped__\<close>; a function (with \<open>__name__\<close>, \<open>__qualname__\<close> and the file and
  first line of its code); a bound method (with the \<open>__qualname__\<close> of its function);
  anything else, given by its \<open>repr\<close>.
\<close>

datatype callable_obj =
    NoneObj
  | Partial callable_obj
  | Wrapper callable_obj
  | Function string string string nat
  | Method string
  | Other string

text \<open>The decimal digits of a line number; \<open>digit\<close> is used below ten only.\<close>

fun digit :: "nat \<Rightarrow> char" where
  "digit n = ''0123456789'' ! n"

fun str_nat :: "nat \<Rightarrow> string" where
  "str_nat n = (if n < 10 then [digit n] else str_nat (n div 10) @ [digit (n mod 10)])"

declare str_nat.simps [simp del]

fun get_callable_id :: "callable_obj \<Rightarrow> error + string" where
  "get_callable_id NoneObj = Inl (ValueError ''Cannot build a persistent id of None.'')"
| "get_callable_id (Partial func) = get_callable_id func"
| "get_callable_id (Wrapper wrapped) = get_callable_id wrapped"
| "get_callable_id (Function name qualname path line) =
     (if name = ''<lambda>'' then Inr (''lambda:'' @ path @ '':'' @ str_nat line)
      else Inr qualname)"
| "get_callable_id (Method qualname) = Inr qualname"
| "get_callable_id (Other repr) = Inl (ValueError (''Cannot get id of '' @ repr @ ''.''))"

text \<open>\<open>not s\<close> for an optional string: true for \<open>None\<close> and for the empty string.\<close>

fun not_str :: "string option \<Rightarrow> bool" where
  "not_str None = True"
| "not_str (Some s) = (s = [])"

fun str_of :: "string option \<Rightarrow> string" where
  "str_of None = ''None''"
| "str_of (Some s) = s"

text \<open>
  \<open>generate_id(fn, id, prefix, suffix)\<close>; the parameters \<open>fn\<close> and \<open>id\<close> are
  \<open>c\<close> and \<open>given\<close> here.
\<close>

definition generate_id ::
  "callable_obj \<Rightarrow> string option \<Rightarrow> string option \<Rightarrow> string option \<Rightarrow> error + HandlerId" where
  "generate_id c given prefix suffix =
     (case (case given of Some i \<Rightarrow> Inr i | None \<Rightarrow> get_callable_id c) of
        Inl e \<Rightarrow> Inl e
      | Inr real_id0 \<Rightarrow>
          (let real_id1 =
                 (if not_str suffix then real_id0 else real_id0 @ ''/'' @ str_of suffix);
               real_id2 =
                 (if not_str prefix then real_id1 else str_of prefix @ ''/'' @ real_id1)
           in Inr real_id2))"

section \<open>The predicates\<close>

text \<open>
  \<open>match\<close> and \<open>prematch\<close> create one empty dictionary \<open>kwargs\<close> and hand it to
  every predicate; the first predicate that needs it fills it from \<open>cause.kwargs\<close>, and
  the later ones see it filled. A predicate that gets the dictionary returns it with its
  answer. \<open>fill_kwargs\<close> is \<open>if not kwargs: kwargs.update(cause.kwargs)\<close>.
\<close>

definition fill_kwargs :: "kwargs \<Rightarrow> ResourceCause \<Rightarrow> kwargs" where
  "fill_kwargs kw cause = (if kw = fmempty then kw ++\<^sub>f kwargs cause else kw)"

definition matches_resource :: "ResourceHandler \<Rightarrow> Resource \<Rightarrow> bool" where
  "matches_resource handler res =
     (case selector handler of None \<Rightarrow> True | Some s \<Rightarrow> check s res)"

definition matches_subresource :: "ResourceHandler \<Rightarrow> ResourceCause \<Rightarrow> bool" where
  "matches_subresource handler cause =
     (if cls handler \<noteq> WebhookHandler then True
      else if ccls cause \<noteq> WebhookCause then True
      else (ResourceHandler.subresource handler = Some ''*'' \<or>
            ResourceHandler.subresource handler = ResourceCause.subresource cause))"

fun matches_metadata ::
  "MetaFilter \<Rightarrow> pyval \<Rightarrow> kwargs \<Rightarrow> ResourceCause \<Rightarrow> bool \<times> kwargs" where
  "matches_metadata [] content kw cause = (True, kw)"
| "matches_metadata ((key, v) # rest) content kw cause =
     (if v = Token ABSENT \<and> py_lookup content key = None
        then matches_metadata rest content kw cause
      else if v = Token PRESENT \<and> py_lookup content key \<noteq> None
        then matches_metadata rest content kw cause
      else if callable v then
        (let kw' = fill_kwargs kw cause in
         if call v (dict_get content key PNone) kw'
           then matches_metadata rest content kw' cause
         else (False, kw'))
      else
        (case py_lookup content key of
           None \<Rightarrow> (False, kw)
         | Some current \<Rightarrow>
             if v \<noteq> Plain current then (False, kw)
             else matches_metadata rest content kw cause))"

definition matches_labels ::
  "ResourceHandler \<Rightarrow> ResourceCause \<Rightarrow> kwargs \<Rightarrow> bool \<times> kwargs" where
  "matches_labels handler cause kw =
     (case labels handler of
        None \<Rightarrow> (True, kw)
      | Some [] \<Rightarrow> (True, kw)
      | Some pattern \<Rightarrow>
          matches_metadata pattern
            (dict_get (dict_get (body cause) ''metadata'' (PDict fmempty))
               ''labels'' (PDict fmempty))
            kw cause)"

definition matches_annotations ::
  "ResourceHandler \<Rightarrow> ResourceCause \<Rightarrow> kwargs \<Rightarrow> bool \<times> kwargs" where
  "matches_annotations handler cause kw =
     (case annotations handler of
        None \<Rightarrow> (True, kw)
      | Some [] \<Rightarrow> (True, kw)
      | Some pattern \<Rightarrow>
          matches_metadata pattern
            (dict_get (dict_get (body cause) ''metadata'' (PDict fmempty))
               ''annotations'' (PDict fmempty))
            kw cause)"

definition matches_field_values ::
  "ResourceHandler \<Rightarrow> ResourceCause \<Rightarrow> kwargs \<Rightarrow> bool \<times> kwargs" where
  "matches_field_values handler cause kw =
     (case field handler of
        None \<Rightarrow> (True, kw)
      | Some [] \<Rightarrow> (True, kw)
      | Some path \<Rightarrow>
          (let kw' = fill_kwargs kw cause;
               absent = PUnset;
               vals = (if ccls cause = ChangingCause
                       then [resolve (ResourceCause.new cause) path absent,
                             resolve (ResourceCause.old cause) path absent]
                       else [resolve (body cause) path absent])
           in (((value' handler = Plain PNone \<and> list_ex (\<lambda>x. x \<noteq> absent) vals) \<or>
                (value' handler = Token PRESENT \<and> list_ex (\<lambda>x. x \<noteq> absent) vals) \<or>
                (value' handler = Token ABSENT \<and> list_ex (\<lambda>x. x = absent) vals) \<or>
                (callable (value' handler) \<and> list_ex (\<lambda>x. call (value' handler) x kw') vals) \<or>
                list_ex (\<lambda>x. value' handler = Plain x) vals),
               kw')))"

definition matches_field_changes ::
  "ResourceHandler \<Rightarrow> ResourceCause \<Rightarrow> kwargs \<Rightarrow> bool \<times> kwargs" where
  "matches_field_changes handler cause kw =
     (if cls handler \<noteq> ChangingHandler then (True, kw)
      else if ccls cause \<noteq> ChangingCause then (True, kw)
      else
        (case field handler of
           None \<Rightarrow> (True, kw)
         | Some [] \<Rightarrow> (True, kw)
         | Some path \<Rightarrow>
             (let kw' = fill_kwargs kw cause;
                  absent = PUnset;
                  old_v = resolve (ResourceCause.old cause) path absent;
                  new_v = resolve (ResourceCause.new cause) path absent
              in (((\<not> truthy (field_needs_change handler) \<or> old_v \<noteq> new_v) \<and>
                   (ResourceHandler.old handler = Plain PNone \<or>
                    (ResourceHandler.old handler = Token ABSENT \<and> old_v = absent) \<or>
                    (ResourceHandler.old handler = Token PRESENT \<and> old_v \<noteq> absent) \<or>
                    (callable (ResourceHandler.old handler) \<and>
                       call (ResourceHandler.old handler) old_v kw') \<or>
                    ResourceHandler.old handler = Plain old_v) \<and>
                   (ResourceHandler.new handler = Plain PNone \<or>
                    (ResourceHandler.new handler = Token ABSENT \<and> new_v = absent) \<or>
                    (ResourceHandler.new handler = Token PRESENT \<and> new_v \<noteq> absent) \<or>
                    (callable (ResourceHandler.new handler) \<and>
                       call (ResourceHandler.new handler) new_v kw') \<or>
                    ResourceHandler.new handler = Plain new_v)),
                  kw'))))"

definition matches_filter_callback ::
  "ResourceHandler \<Rightarrow> ResourceCause \<Rightarrow> kwargs \<Rightarrow> bool \<times> kwargs" where
  "matches_filter_callback handler cause kw =
     (case when' handler of
        None \<Rightarrow> (True, kw)
      | Some w \<Rightarrow> (let kw' = fill_kwargs kw cause in (w kw', kw')))"

text \<open>
  \<open>p and q\<close> on two predicates that share the dictionary: \<open>q\<close> runs only when \<open>p\<close>
  holds, on the dictionary \<open>p\<close> left.
\<close>

definition and_then ::
  "(kwargs \<Rightarrow> bool \<times> kwargs) \<Rightarrow> (kwargs \<Rightarrow> bool \<times> kwargs) \<Rightarrow> kwargs \<Rightarrow> bool \<times> kwargs" where
  "and_then p q kw = (case p kw of (r, kw') \<Rightarrow> if r then q kw' else (False, kw'))"

definition prematch :: "ResourceHandler \<Rightarrow> ResourceCause \<Rightarrow> bool" where
  "prematch handler cause =
     (let kw = fmempty in
      matches_resource handler (resource cause) \<and>
      matches_subresource handler cause \<and>
      fst ((and_then (matches_labels handler cause)
           (and_then (matches_annotations handler cause)
           (and_then (matches_field_values handler cause)
                     (matches_filter_callback handler cause)))) kw))"

definition match :: "ResourceHandler \<Rightarrow> ResourceCause \<Rightarrow> bool" where
  "match handler cause =
     (let kw = fmempty in
      matches_resource handler (resource cause) \<and>
      matches_subresource handler cause \<and>
      fst ((and_then (matches_labels handler cause)
           (and_then (matches_annotations handler cause)
           (and_then (matches_field_values handler cause)
           (and_then (matches_field_changes handler cause)
                     (matches_filter_callback handler cause))))) kw))"

section \<open>Resource registries\<close>

text \<open>
  \<open>excluded\<close> is a container of handler ids, tested with \<open>in\<close> only: a set.
  Each \<open>iter_handlers\<close> walks \<open>_handlers\<close> in order and yields the handlers its
  nested conditions let through; the conditions of one pass of the loop are a predicate of
  their own here, and the loop is the filter by it.
\<close>

definition get_all_selectors :: "ResourceHandler registry \<Rightarrow> Selector set" where
  "get_all_selectors handlers =
     set (List.map_filter selector (get_all_handlers handlers))"

fun has_handlers :: "ResourceHandler registry \<Rightarrow> Resource \<Rightarrow> bool" where
  "has_handlers [] res = False"
| "has_handlers (handler # rest) res =
     (if matches_resource handler res then True else has_handlers rest res)"

definition indexing_iter_handlers ::
  "ResourceHandler registry \<Rightarrow> ResourceCause \<Rightarrow> HandlerId set \<Rightarrow> ResourceHandler list" where
  "indexing_iter_handlers handlers cause excluded =
     filter (\<lambda>handler. id' handler \<notin> excluded \<and> match handler cause) handlers"

definition changing_yields ::
  "ResourceHandler \<Rightarrow> ResourceCause \<Rightarrow> HandlerId set \<Rightarrow> bool" where
  "changing_yields handler cause excluded =
     (if id' handler \<notin> excluded then
        (if ResourceHandler.reason handler = None \<or>
            ResourceHandler.reason handler = ResourceCause.reason cause then
           (if truthy (ResourceHandler.initial handler) \<and> \<not> ResourceCause.initial cause
              then False
            else if truthy (ResourceHandler.initial handler) \<and> ResourceCause.deleted cause \<and>
                    \<not> truthy (ResourceHandler.deleted handler)
              then False
            else match handler cause)
         else False)
      else False)"

definition changing_iter_handlers ::
  "ResourceHandler registry \<Rightarrow> ResourceCause \<Rightarrow> HandlerId set \<Rightarrow> ResourceHandler list" where
  "changing_iter_handlers handlers cause excluded =
     filter (\<lambda>handler. changing_yields handler cause excluded) handlers"

definition changing_get_handlers ::
  "ResourceHandler registry \<Rightarrow> ResourceCause \<Rightarrow> HandlerId set \<Rightarrow> ResourceHandler list" where
  "changing_get_handlers handlers cause excluded =
     deduplicated (changing_iter_handlers handlers cause excluded)"

text \<open>The local variables of \<open>WebhooksRegistry.iter_handlers\<close>, under their names.\<close>

definition matching_reason :: "ResourceCause \<Rightarrow> ResourceHandler \<Rightarrow> bool" where
  "matching_reason cause handler \<longleftrightarrow>
     ResourceCause.reason cause = None \<or>
     ResourceCause.reason cause = ResourceHandler.reason handler"

definition matching_webhook :: "ResourceCause \<Rightarrow> ResourceHandler \<Rightarrow> bool" where
  "matching_webhook cause handler \<longleftrightarrow>
     webhook cause = None \<or> webhook cause = Some (id' handler)"

definition non_mutating :: "ResourceHandler \<Rightarrow> bool" where
  "non_mutating handler \<longleftrightarrow> ResourceHandler.reason handler \<noteq> Some MUTATING"

definition non_deletion :: "ResourceCause \<Rightarrow> bool" where
  "non_deletion cause \<longleftrightarrow> operation cause \<noteq> Some ''DELETE''"

definition explicitly_for_deletion :: "ResourceHandler \<Rightarrow> bool" where
  "explicitly_for_deletion handler \<longleftrightarrow>
     set (case operations handler of None \<Rightarrow> [] | Some ops \<Rightarrow> ops) = {''DELETE''}"

definition webhooks_yields ::
  "ResourceHandler \<Rightarrow> ResourceCause \<Rightarrow> HandlerId set \<Rightarrow> bool" where
  "webhooks_yields handler cause excluded =
     (if id' handler \<notin> excluded then
        (if matching_reason cause handler \<and> matching_webhook cause handler then
           (if non_mutating handler \<or> non_deletion cause \<or> explicitly_for_deletion handler
              then match handler cause
            else False)
         else False)
      else False)"

definition webhooks_iter_handlers ::
  "ResourceHandler registry \<Rightarrow> ResourceCause \<Rightarrow> HandlerId set \<Rightarrow> ResourceHandler list" where
  "webhooks_iter_handlers handlers cause excluded =
     filter (\<lambda>handler. webhooks_yields handler cause excluded) handlers"

definition webhooks_get_handlers ::
  "ResourceHandler registry \<Rightarrow> ResourceCause \<Rightarrow> HandlerId set \<Rightarrow> ResourceHandler list" where
  "webhooks_get_handlers handlers cause excluded =
     deduplicated (webhooks_iter_handlers handlers cause excluded)"

section \<open>Notions used by the properties\<close>

text \<open>The key under which \<open>_deduplicated\<close> remembers a handler.\<close>

definition dedup_key :: "'a Handler_scheme \<Rightarrow> nat \<times> HandlerId" where
  "dedup_key handler = (py_id (fn handler), id' handler)"

text \<open>
  The deduplicator in the words of the spec: the first handler stays, the later handlers
  with its callable and its id go, and so on for the rest.
\<close>

fun first_occurrences :: "'a Handler_scheme list \<Rightarrow> 'a Handler_scheme list" where
  "first_occurrences [] = []"
| "first_occurrences (h # hs) =
     h # first_occurrences (filter (\<lambda>h'. dedup_key h' \<noteq> dedup_key h) hs)"

text \<open>
  The shared dictionary is empty or holds \<open>cause.kwargs\<close>; a predicate shares it well
  when it keeps that and answers the same on both.
\<close>

definition kw_ok :: "ResourceCause \<Rightarrow> kwargs \<Rightarrow> bool" where
  "kw_ok cause kw \<longleftrightarrow> kw = fmempty \<or> kw = kwargs cause"

definition shares_kwargs :: "ResourceCause \<Rightarrow> (kwargs \<Rightarrow> bool \<times> kwargs) \<Rightarrow> bool" where
  "shares_kwargs cause p \<longleftrightarrow>
     (\<forall>kw. kw_ok cause kw \<longrightarrow> kw_ok cause (snd (p kw)) \<and> fst (p kw) = fst (p fmempty))"

text \<open>
  A criterion on a resolved value in the words of the spec: \<open>None\<close> is unconstrained,
  the absent token wants the marker of absence, the present token wants anything else, a
  predicate decides by itself, and any other value wants equality.
\<close>

fun accepts :: "filter_value \<Rightarrow> pyval \<Rightarrow> kwargs \<Rightarrow> bool" where
  "accepts (Plain PNone) v kw = True"
| "accepts (Token ABSENT) v kw = (v = PUnset)"
| "accepts (Token PRESENT) v kw = (v \<noteq> PUnset)"
| "accepts (Callable f) v kw = f v kw"
| "accepts (Plain x) v kw = (x = v)"

text \<open>
  One key of a label or annotation filter in the words of the spec; \<open>current\<close> is the
  value of the key in the resource's metadata, if it has one.
\<close>

fun key_passes :: "filter_value \<Rightarrow> pyval option \<Rightarrow> kwargs \<Rightarrow> bool" where
  "key_passes (Token ABSENT) current kw = (current = None)"
| "key_passes (Token PRESENT) current kw = (current \<noteq> None)"
| "key_passes (Callable f) current kw = f (case current of None \<Rightarrow> PNone | Some v \<Rightarrow> v) kw"
| "key_passes (Plain x) current kw = (current = Some x)"

definition labels_of :: "ResourceCause \<Rightarrow> pyval" where
  "labels_of cause =
     dict_get (dict_get (body cause) ''metadata'' (PDict fmempty)) ''labels'' (PDict fmempty)"

definition annotations_of :: "ResourceCause \<Rightarrow> pyval" where
  "annotations_of cause =
     dict_get (dict_get (body cause) ''metadata'' (PDict fmempty))
       ''annotations'' (PDict fmempty)"

subsection \<open>Sample handlers and causes\<close>

definition plain_handler :: ResourceHandler where
  "plain_handler =
     \<lparr>id' = ''fn'', fn = 1, cls = ChangingHandler, selector = None, labels = None,
      annotations = None, when' = None, field = None, value' = Plain PNone,
      reason = None, initial = None, deleted = None, requires_finalizer = None,
      field_needs_change = None, old = Plain PNone, new = Plain PNone,
      operations = None, subresource = None\<rparr>"

definition plain_cause :: ResourceCause where
  "plain_cause =
     \<lparr>ccls = ChangingCause,
      resource = \<lparr>group = ''kopf.dev'', version = ''v1'', plural = ''kopfexamples''\<rparr>,
      body = PDict fmempty, kwargs = fmempty, reason = Some UPDATE, initial = False,
      deleted = False, old = PDict fmempty, new = PDict fmempty, webhook = None,
      operation = None, subresource = None\<rparr>"

text \<open>The body \<open>{"spec": {"x": n}}\<close>.\<close>

definition spec_x :: "int \<Rightarrow> pyval" where
  "spec_x n = PDict (fmap_of_list [(''spec'', PDict (fmap_of_list [(''x'', PInt n)]))])"

text \<open>A handler on the field \<open>spec.x\<close> that needs a change of the field.\<close>

definition field_handler :: ResourceHandler where
  "field_handler =
     plain_handler\<lparr>field := Some [''spec'', ''x''], field_needs_change := Some True\<rparr>"

definition change_cause :: "int \<Rightarrow> int \<Rightarrow> ResourceCause" where
  "change_cause m n = plain_cause\<lparr>old := spec_x m, new := spec_x n, body := spec_x n\<rparr>"

text \<open>The body \<open>{"metadata": {"labels": {"env": "prod", "tier": "web"}}}\<close>.\<close>

definition labelled_cause :: ResourceCause where
  "labelled_cause =
     plain_cause\<lparr>body := PDict (fmap_of_list [(''metadata'', PDict (fmap_of_list
       [(''labels'', PDict (fmap_of_list
          [(''env'', PStr ''prod''), (''tier'', PStr ''web'')]))]))])\<rparr>"

definition initial_handler :: ResourceHandler where
  "initial_handler = plain_handler\<lparr>ResourceHandler.initial := Some True\<rparr>"

definition webhook_handler :: ResourceHandler where
  "webhook_handler =
     plain_handler\<lparr>cls := WebhookHandler, ResourceHandler.reason := Some MUTATING\<rparr>"

definition webhook_cause :: ResourceCause where
  "webhook_cause =
     plain_cause\<lparr>ccls := WebhookCause, reason := Some MUTATING,
       operation := Some ''DELETE''\<rparr>"

text \<open>
  A mutating handler for deletions, and the same callable registered once more under the
  same id for every subresource.
\<close>

definition delete_handler :: ResourceHandler where
  "delete_handler = webhook_handler\<lparr>operations := Some [''DELETE'']\<rparr>"

definition delete_handler_again :: ResourceHandler where
  "delete_handler_again = delete_handler\<lparr>ResourceHandler.subresource := Some ''*''\<rparr>"

definition pods :: Selector where
  "pods = \<lparr>sel_group = Some [], sel_version = Some ''v1'', sel_plural = Some ''pods''\<rparr>"

definition fallback_login :: ActivityHandler where
  "fallback_login = \<lparr>id' = ''login_fallback'', fn = 1, activity = None, fallback = True\<rparr>"

definition user_login :: ActivityHandler where
  "user_login =
     \<lparr>id' = ''login'', fn = 2, activity = Some AUTHENTICATION, fallback = False\<rparr>"

section \<open>Unfolding the samples and the predicates\<close>

lemmas sample_defs = plain_handler_def plain_cause_def

lemmas predicate_defs = matches_resource_def matches_subresource_def matches_labels_def
  matches_annotations_def matches_field_values_def matches_field_changes_def
  matches_filter_callback_def fill_kwargs_def

section \<open>Deduplication keeps the first occurrences\<close>

lemma deduplicated_loop_insert:
  "deduplicated_loop (insert k seen) src =
   deduplicated_loop seen (filter (\<lambda>h. dedup_key h \<noteq> k) src)"
  by (induction src arbitrary: seen) (auto simp: Let_def dedup_key_def insert_commute)

lemma deduplicated_eq_first_occurrences:
  "deduplicated src = first_occurrences src"
  unfolding deduplicated_def
proof (induction src rule: first_occurrences.induct)
  case 1
  then show ?case by simp
next
  case (2 h hs)
  have "deduplicated_loop {} (h # hs) = h # deduplicated_loop {dedup_key h} hs"
    by (simp add: Let_def dedup_key_def)
  also have "deduplicated_loop {dedup_key h} hs =
      deduplicated_loop {} (filter (\<lambda>h'. dedup_key h' \<noteq> dedup_key h) hs)"
    by (rule deduplicated_loop_insert)
  finally show ?case using 2 by simp
qed

lemma deduplicated_loop_positions:
  "deduplicated_loop seen src =
   map (nth src) (filter (\<lambda>i. dedup_key (src ! i) \<notin> seen \<and>
      (\<forall>j<i. dedup_key (src ! j) \<noteq> dedup_key (src ! i))) [0..<length src])"
proof (induction src arbitrary: seen)
  case Nil
  then show ?case by simp
next
  case (Cons h hs)
  have upt: "[0..<length (h # hs)] = 0 # map Suc [0..<length hs]"
    by (simp add: upt_conv_Cons map_Suc_upt del: upt_Suc)
  show ?case
  proof (cases "dedup_key h \<in> seen")
    case True
    have "(\<lambda>i. dedup_key (hs ! i) \<notin> seen \<and> dedup_key h \<noteq> dedup_key (hs ! i) \<and>
            (\<forall>j<i. dedup_key (hs ! j) \<noteq> dedup_key (hs ! i))) =
          (\<lambda>i. dedup_key (hs ! i) \<notin> seen \<and>
            (\<forall>j<i. dedup_key (hs ! j) \<noteq> dedup_key (hs ! i)))"
      using True by auto
    with True show ?thesis
      unfolding upt
      by (simp add: filter_map o_def All_less_Suc2 Cons.IH dedup_key_def [symmetric])
  next
    case False
    have "(\<lambda>i. dedup_key (hs ! i) \<notin> seen \<and> dedup_key h \<noteq> dedup_key (hs ! i) \<and>
            (\<forall>j<i. dedup_key (hs ! j) \<noteq> dedup_key (hs ! i))) =
          (\<lambda>i. dedup_key (hs ! i) \<notin> insert (dedup_key h) seen \<and>
            (\<forall>j<i. dedup_key (hs ! j) \<noteq> dedup_key (hs ! i)))"
      by auto
    with False show ?thesis
      unfolding upt
      by (simp add: filter_map o_def All_less_Suc2 Cons.IH dedup_key_def [symmetric])
  qed
qed

text \<open>
  C4: the deduplicator yields the handlers of the sequence that are the first with their
  pair of callable identity and id, in the order of the sequence. Two handlers with one
  id and two callables both stay, and so do two handlers with one callable and two ids.
\<close>

theorem deduplicated_first_occurrences:
  "deduplicated src = first_occurrences src \<and>
   deduplicated src =
     map (nth src)
       (filter (\<lambda>i. \<forall>j<i. dedup_key (src ! j) \<noteq> dedup_key (src ! i)) [0..<length src]) \<and>
   (id' h = id' h' \<and> fn h \<noteq> fn h' \<longrightarrow> deduplicated [h, h'] = [h, h']) \<and>
   (fn h = fn h' \<and> id' h \<noteq> id' h' \<longrightarrow> deduplicated [h, h'] = [h, h'])"
proof -
  have "deduplicated src =
     map (nth src)
       (filter (\<lambda>i. \<forall>j<i. dedup_key (src ! j) \<noteq> dedup_key (src ! i)) [0..<length src])"
    unfolding deduplicated_def deduplicated_loop_positions by simp
  moreover have "deduplicated [h, h'] = [h, h']" if "dedup_key h \<noteq> dedup_key h'"
    using that by (auto simp: deduplicated_def dedup_key_def Let_def)
  ultimately show ?thesis
    by (auto simp: deduplicated_eq_first_occurrences dedup_key_def py_id_def)
qed

theorem deduplicated_first_occurrences_witness:
  "deduplicated
     [\<lparr>id' = ''fn'', fn = 1\<rparr>, \<lparr>id' = ''fn'', fn = 2\<rparr>, \<lparr>id' = ''fn'', fn = 1\<rparr>,
      \<lparr>id' = ''sub/fn'', fn = 1\<rparr>, \<lparr>id' = ''fn'', fn = 2\<rparr>] =
     [\<lparr>id' = ''fn'', fn = 1\<rparr>, \<lparr>id' = ''fn'', fn = 2\<rparr>, \<lparr>id' = ''sub/fn'', fn = 1\<rparr>] \<and>
   deduplicated [\<lparr>id' = ''fn'', fn = 1\<rparr>, \<lparr>id' = ''fn'', fn = 2\<rparr>] =
     [\<lparr>id' = ''fn'', fn = 1\<rparr>, \<lparr>id' = ''fn'', fn = 2\<rparr>]"
  using deduplicated_first_occurrences
    [of "[\<lparr>id' = ''fn'', fn = 1\<rparr>, \<lparr>id' = ''fn'', fn = 2\<rparr>, \<lparr>id' = ''fn'', fn = 1\<rparr>,
          \<lparr>id' = ''sub/fn'', fn = 1\<rparr>, \<lparr>id' = ''fn'', fn = 2\<rparr>]"
        "\<lparr>id' = ''fn'', fn = 1\<rparr>" "\<lparr>id' = ''fn'', fn = 2\<rparr>"]
  by (simp add: dedup_key_def py_id_def)

section \<open>The keyword arguments are shared without effect on the answer\<close>

lemma kw_ok_empty [simp]: "kw_ok cause fmempty"
  by (simp add: kw_ok_def)

lemma kw_ok_kwargs [simp]: "kw_ok cause (kwargs cause)"
  by (simp add: kw_ok_def)

lemma fill_kwargs_ok [simp]: "kw_ok cause kw \<Longrightarrow> fill_kwargs kw cause = kwargs cause"
  by (auto simp: kw_ok_def fill_kwargs_def)

lemma fill_kwargs_empty [simp]: "fill_kwargs fmempty cause = kwargs cause"
  by (simp add: fill_kwargs_def)

lemma matches_metadata_kwargs:
  "kw_ok cause kw \<Longrightarrow>
   kw_ok cause (snd (matches_metadata pattern content kw cause)) \<and>
   fst (matches_metadata pattern content kw cause) =
   fst (matches_metadata pattern content fmempty cause)"
proof (induction pattern arbitrary: kw)
  case Nil
  then show ?case by simp
next
  case (Cons kv rest)
  obtain key v where kv: "kv = (key, v)" by (cases kv)
  have a: "fst (matches_metadata rest content (kwargs cause) cause) =
           fst (matches_metadata rest content fmempty cause)"
    using Cons.IH [of "kwargs cause"] by simp
  have b: "kw_ok cause (snd (matches_metadata rest content (kwargs cause) cause))"
    using Cons.IH [of "kwargs cause"] by simp
  show ?case
    using Cons.IH [OF Cons.prems] Cons.prems a b
    by (simp add: kv Let_def split: option.splits)
qed

lemma shares_matches_labels: "shares_kwargs cause (matches_labels handler cause)"
  unfolding shares_kwargs_def
proof (intro allI impI)
  fix kw
  assume ok: "kw_ok cause kw"
  show "kw_ok cause (snd (matches_labels handler cause kw)) \<and>
        fst (matches_labels handler cause kw) = fst (matches_labels handler cause fmempty)"
  proof (cases "labels handler")
    case None
    then show ?thesis using ok by (simp add: matches_labels_def)
  next
    case (Some pattern)
    show ?thesis
    proof (cases pattern)
      case Nil
      then show ?thesis using ok Some by (simp add: matches_labels_def)
    next
      case (Cons kv rest)
      show ?thesis
        using matches_metadata_kwargs [OF ok, of "kv # rest"]
        by (simp add: matches_labels_def Some Cons del: matches_metadata.simps)
    qed
  qed
qed

lemma shares_matches_annotations: "shares_kwargs cause (matches_annotations handler cause)"
  unfolding shares_kwargs_def
proof (intro allI impI)
  fix kw
  assume ok: "kw_ok cause kw"
  show "kw_ok cause (snd (matches_annotations handler cause kw)) \<and>
        fst (matches_annotations handler cause kw) = fst (matches_annotations handler cause fmempty)"
  proof (cases "annotations handler")
    case None
    then show ?thesis using ok by (simp add: matches_annotations_def)
  next
    case (Some pattern)
    show ?thesis
    proof (cases pattern)
      case Nil
      then show ?thesis using ok Some by (simp add: matches_annotations_def)
    next
      case (Cons kv rest)
      show ?thesis
        using matches_metadata_kwargs [OF ok, of "kv # rest"]
        by (simp add: matches_annotations_def Some Cons del: matches_metadata.simps)
    qed
  qed
qed

lemma shares_matches_field_values: "shares_kwargs cause (matches_field_values handler cause)"
  unfolding shares_kwargs_def
proof (intro allI impI)
  fix kw
  assume ok: "kw_ok cause kw"
  have f: "fill_kwargs kw cause = kwargs cause" "fill_kwargs fmempty cause = kwargs cause"
    using ok by simp_all
  show "kw_ok cause (snd (matches_field_values handler cause kw)) \<and>
        fst (matches_field_values handler cause kw) =
        fst (matches_field_values handler cause fmempty)"
  proof (cases "field handler")
    case None
    then show ?thesis using ok by (simp add: matches_field_values_def)
  next
    case (Some path)
    show ?thesis
    proof (cases path)
      case Nil
      then show ?thesis using ok Some by (simp add: matches_field_values_def)
    next
      case (Cons key keys)
      show ?thesis
        unfolding matches_field_values_def f Some Cons Let_def
        by (simp only: option.case list.case fst_conv snd_conv kw_ok_kwargs simp_thms)
    qed
  qed
qed

lemma shares_matches_field_changes: "shares_kwargs cause (matches_field_changes handler cause)"
  unfolding shares_kwargs_def
proof (intro allI impI)
  fix kw
  assume ok: "kw_ok cause kw"
  have f: "fill_kwargs kw cause = kwargs cause" "fill_kwargs fmempty cause = kwargs cause"
    using ok by simp_all
  show "kw_ok cause (snd (matches_field_changes handler cause kw)) \<and>
        fst (matches_field_changes handler cause kw) =
        fst (matches_field_changes handler cause fmempty)"
  proof (cases "cls handler \<noteq> ChangingHandler \<or> ccls cause \<noteq> ChangingCause")
    case True
    then show ?thesis using ok by (auto simp: matches_field_changes_def)
  next
    case False
    then have c: "cls handler = ChangingHandler" "ccls cause = ChangingCause" by simp_all
    show ?thesis
    proof (cases "field handler")
      case None
      then show ?thesis using ok c by (simp add: matches_field_changes_def)
    next
      case (Some path)
      show ?thesis
      proof (cases path)
        case Nil
        then show ?thesis using ok c Some by (simp add: matches_field_changes_def)
      next
        case (Cons key keys)
        show ?thesis
          unfolding matches_field_changes_def f Some Cons Let_def c
          by (simp only: option.case list.case fst_conv snd_conv kw_ok_kwargs simp_thms if_False)
      qed
    qed
  qed
qed

lemma shares_matches_filter_callback:
  "shares_kwargs cause (matches_filter_callback handler cause)"
  unfolding shares_kwargs_def matches_filter_callback_def
  by (simp add: Let_def split: option.splits)

lemma and_then_conv:
  "and_then p q kw = (if fst (p kw) then q (snd (p kw)) else (False, snd (p kw)))"
  by (cases "p kw") (simp add: and_then_def)

lemma shares_and_then:
  assumes "shares_kwargs cause p" and "shares_kwargs cause q"
  shows "shares_kwargs cause (and_then p q)"
    and "fst (and_then p q fmempty) \<longleftrightarrow> fst (p fmempty) \<and> fst (q fmempty)"
proof -
  have both: "kw_ok cause (snd (and_then p q kw)) \<and>
      (fst (and_then p q kw) \<longleftrightarrow> fst (p fmempty) \<and> fst (q fmempty))"
    if ok: "kw_ok cause kw" for kw
  proof -
    have p1: "kw_ok cause (snd (p kw))" and p2: "fst (p kw) = fst (p fmempty)"
      using assms(1) ok unfolding shares_kwargs_def by blast+
    have q1: "kw_ok cause (snd (q (snd (p kw))))"
      and q2: "fst (q (snd (p kw))) = fst (q fmempty)"
      using assms(2) p1 unfolding shares_kwargs_def by blast+
    show ?thesis
    proof (cases "fst (p kw)")
      case True
      then show ?thesis using q1 q2 p2 by (simp only: and_then_conv if_True simp_thms)
    next
      case False
      then show ?thesis using p1 p2
        by (simp only: and_then_conv if_False fst_conv snd_conv simp_thms)
    qed
  qed
  have "fst (and_then p q kw) = fst (and_then p q fmempty)" if "kw_ok cause kw" for kw
    using both [OF that] both [of fmempty] by simp
  then show "shares_kwargs cause (and_then p q)"
    unfolding shares_kwargs_def using both by blast
  show "fst (and_then p q fmempty) \<longleftrightarrow> fst (p fmempty) \<and> fst (q fmempty)"
    using both [of fmempty] by simp
qed

lemma prematch_conv:
  "prematch handler cause \<longleftrightarrow>
     matches_resource handler (resource cause) \<and>
     matches_subresource handler cause \<and>
     fst (matches_labels handler cause fmempty) \<and>
     fst (matches_annotations handler cause fmempty) \<and>
     fst (matches_field_values handler cause fmempty) \<and>
     fst (matches_filter_callback handler cause fmempty)"
proof -
  note s3 = shares_and_then [OF shares_matches_field_values shares_matches_filter_callback]
  note s2 = shares_and_then [OF shares_matches_annotations s3(1)]
  note s1 = shares_and_then [OF shares_matches_labels s2(1)]
  show ?thesis
    unfolding prematch_def Let_def s1(2) s2(2) s3(2) by (rule refl)
qed

lemma match_conv:
  "match handler cause \<longleftrightarrow>
     matches_resource handler (resource cause) \<and>
     matches_subresource handler cause \<and>
     fst (matches_labels handler cause fmempty) \<and>
     fst (matches_annotations handler cause fmempty) \<and>
     fst (matches_field_values handler cause fmempty) \<and>
     fst (matches_field_changes handler cause fmempty) \<and>
     fst (matches_filter_callback handler cause fmempty)"
proof -
  note s4 = shares_and_then [OF shares_matches_field_changes shares_matches_filter_callback]
  note s3 = shares_and_then [OF shares_matches_field_values s4(1)]
  note s2 = shares_and_then [OF shares_matches_annotations s3(1)]
  note s1 = shares_and_then [OF shares_matches_labels s2(1)]
  show ?thesis
    unfolding match_def Let_def s1(2) s2(2) s3(2) s4(2) by (rule refl)
qed

text \<open>
  C3: \<open>match\<close> holds exactly when \<open>prematch\<close> holds and the field-change match of the
  handler and the cause holds (on a fresh dictionary of keyword arguments, as \<open>match\<close>
  creates one). The callables of the model are functions, so they are pure.
\<close>

theorem match_iff_prematch_and_field_changes:
  "match handler cause \<longleftrightarrow>
     prematch handler cause \<and> fst (matches_field_changes handler cause fmempty)"
  unfolding match_conv prematch_conv by blast

section \<open>Field changes\<close>

lemma accepts_conv:
  "accepts c v kw \<longleftrightarrow>
     c = Plain PNone \<or> (c = Token ABSENT \<and> v = PUnset) \<or>
     (c = Token PRESENT \<and> v \<noteq> PUnset) \<or> (callable c \<and> call c v kw) \<or> c = Plain v"
proof (cases c)
  case (Plain x)
  then show ?thesis by (cases x) auto
next
  case (Token t)
  then show ?thesis by (cases t) auto
next
  case (Callable f)
  then show ?thesis by simp
qed

lemma matches_field_changes_conv:
  assumes "cls handler = ChangingHandler" and "ccls cause = ChangingCause"
    and "field handler = Some path" and "path \<noteq> []"
  shows "fst (matches_field_changes handler cause kw) \<longleftrightarrow>
     (truthy (field_needs_change handler) \<longrightarrow>
        resolve (ResourceCause.old cause) path PUnset \<noteq>
        resolve (ResourceCause.new cause) path PUnset) \<and>
     accepts (ResourceHandler.old handler) (resolve (ResourceCause.old cause) path PUnset)
       (fill_kwargs kw cause) \<and>
     accepts (ResourceHandler.new handler) (resolve (ResourceCause.new cause) path PUnset)
       (fill_kwargs kw cause)"
proof -
  obtain key keys where path: "path = key # keys"
    using assms(4) by (cases path) auto
  show ?thesis
    unfolding matches_field_changes_def accepts_conv assms(1,2,3) path Let_def
    by (simp only: option.case list.case fst_conv simp_thms if_False imp_conv_disj)
qed

text \<open>
  C6: for a changing handler with a field and a changing cause, the field-change match
  holds exactly when (a) the values resolved at the field path in the old and in the new
  state differ, in case \<open>field_needs_change\<close> is set (and with no condition otherwise),
  (b) the handler's \<open>old\<close> criterion accepts the resolved old value, and (c) its
  \<open>new\<close> criterion accepts the resolved new value. With \<open>field_needs_change\<close> set
  and equal resolved values the handler does not match the cause.
\<close>

theorem field_changes_gating:
  assumes "cls handler = ChangingHandler" and "ccls cause = ChangingCause"
    and "field handler = Some path" and "path \<noteq> []"
  shows "(fst (matches_field_changes handler cause kw) \<longleftrightarrow>
       (truthy (field_needs_change handler) \<longrightarrow>
          resolve (ResourceCause.old cause) path PUnset \<noteq>
          resolve (ResourceCause.new cause) path PUnset) \<and>
       accepts (ResourceHandler.old handler) (resolve (ResourceCause.old cause) path PUnset)
         (fill_kwargs kw cause) \<and>
       accepts (ResourceHandler.new handler) (resolve (ResourceCause.new cause) path PUnset)
         (fill_kwargs kw cause)) \<and>
     (truthy (field_needs_change handler) \<and>
      resolve (ResourceCause.old cause) path PUnset =
      resolve (ResourceCause.new cause) path PUnset \<longrightarrow> \<not> match handler cause)"
proof -
  have "\<not> match handler cause"
    if "truthy (field_needs_change handler)"
      and "resolve (ResourceCause.old cause) path PUnset =
           resolve (ResourceCause.new cause) path PUnset"
  proof -
    have "\<not> fst (matches_field_changes handler cause fmempty)"
      using that by (simp add: matches_field_changes_conv [OF assms])
    then show ?thesis by (simp add: match_conv)
  qed
  then show ?thesis
    using matches_field_changes_conv [OF assms, of kw] by blast
qed

theorem field_changes_gating_witness:
  "\<not> fst (matches_field_changes field_handler (change_cause 1 1) fmempty) \<and>
   \<not> match field_handler (change_cause 1 1) \<and>
   fst (matches_field_changes field_handler (change_cause 1 2) fmempty) \<and>
   fst (matches_field_changes (field_handler\<lparr>field_needs_change := Some False\<rparr>)
     (change_cause 1 1) fmempty)"
proof -
  have h: "cls field_handler = ChangingHandler"
    "field field_handler = Some [''spec'', ''x'']" "[''spec'', ''x''] \<noteq> []"
    "cls (field_handler\<lparr>field_needs_change := Some False\<rparr>) = ChangingHandler"
    "field (field_handler\<lparr>field_needs_change := Some False\<rparr>) = Some [''spec'', ''x'']"
    by (simp_all add: sample_defs field_handler_def change_cause_def spec_x_def)
  have c: "ccls (change_cause m n) = ChangingCause" for m n
    by (simp add: sample_defs field_handler_def change_cause_def spec_x_def)
  note a = field_changes_gating [OF h(1) c h(2) h(3), of 1 1 fmempty]
  note b = field_changes_gating [OF h(1) c h(2) h(3), of 1 2 fmempty]
  note d = field_changes_gating [OF h(4) c h(5) h(3), of 1 1 fmempty]
  show ?thesis
    using a b d by (simp add: sample_defs field_handler_def change_cause_def spec_x_def fill_kwargs_def)
qed

section \<open>Labels and annotations\<close>

lemma fill_kwargs_idem [simp]: "fill_kwargs (fill_kwargs kw cause) cause = fill_kwargs kw cause"
  by (simp add: fill_kwargs_def)

lemma key_step:
  "fst (matches_metadata ((key, v) # rest) content kw cause) \<longleftrightarrow>
     key_passes v (py_lookup content key) (fill_kwargs kw cause) \<and>
     fst (matches_metadata rest content
        (if callable v \<and> \<not> (v = Token ABSENT) then fill_kwargs kw cause else kw) cause)"
proof (cases v)
  case (Plain x)
  then show ?thesis by (auto split: option.splits)
next
  case (Token t)
  then show ?thesis by (cases t) (auto split: option.splits)
next
  case (Callable f)
  then show ?thesis by (auto simp: Let_def dict_get_def split: option.splits)
qed

lemma matches_metadata_conv:
  "fst (matches_metadata pattern content kw cause) \<longleftrightarrow>
     (\<forall>(key, v) \<in> set pattern. key_passes v (py_lookup content key) (fill_kwargs kw cause))"
proof (induction pattern arbitrary: kw)
  case Nil
  then show ?case by simp
next
  case (Cons kv rest)
  obtain key v where kv: "kv = (key, v)" by (cases kv)
  show ?case
    unfolding kv key_step
    by (simp add: Cons.IH)
qed

lemma matches_labels_conv:
  "fst (matches_labels handler cause kw) \<longleftrightarrow>
     (case labels handler of None \<Rightarrow> True
      | Some pattern \<Rightarrow>
          \<forall>(key, v) \<in> set pattern.
            key_passes v (py_lookup (labels_of cause) key) (fill_kwargs kw cause))"
proof (cases "labels handler")
  case None
  then show ?thesis by (simp add: matches_labels_def)
next
  case (Some pattern)
  show ?thesis
  proof (cases pattern)
    case Nil
    then show ?thesis using Some by (simp add: matches_labels_def)
  next
    case (Cons kv rest)
    show ?thesis
      using matches_metadata_conv [of "kv # rest" "labels_of cause" kw cause]
      by (simp add: matches_labels_def Some Cons labels_of_def del: matches_metadata.simps)
  qed
qed

lemma matches_annotations_conv:
  "fst (matches_annotations handler cause kw) \<longleftrightarrow>
     (case annotations handler of None \<Rightarrow> True
      | Some pattern \<Rightarrow>
          \<forall>(key, v) \<in> set pattern.
            key_passes v (py_lookup (annotations_of cause) key) (fill_kwargs kw cause))"
proof (cases "annotations handler")
  case None
  then show ?thesis by (simp add: matches_annotations_def)
next
  case (Some pattern)
  show ?thesis
  proof (cases pattern)
    case Nil
    then show ?thesis using Some by (simp add: matches_annotations_def)
  next
    case (Cons kv rest)
    show ?thesis
      using matches_metadata_conv [of "kv # rest" "annotations_of cause" kw cause]
      by (simp add: matches_annotations_def Some Cons annotations_of_def
          del: matches_metadata.simps)
  qed
qed

text \<open>
  C8: the match of a label (annotation) filter holds exactly when every key of the filter
  passes: the absent token wants the key missing from the resource's labels
  (annotations), the present token wants it there, a predicate has to hold of the current
  value (or of \<open>None\<close>), and any other value wants the key there with that very value.
  A handler with no filter or with an empty one always matches. The predicates get the
  keyword arguments \<open>fill_kwargs kw cause\<close>: those of the cause, when the shared
  dictionary \<open>kw\<close> is still empty.
\<close>

theorem metadata_match_every_key:
  "(fst (matches_metadata pattern content kw cause) \<longleftrightarrow>
      (\<forall>(key, v) \<in> set pattern.
         key_passes v (py_lookup content key) (fill_kwargs kw cause))) \<and>
   (fst (matches_labels handler cause kw) \<longleftrightarrow>
      (case labels handler of None \<Rightarrow> True
       | Some pattern \<Rightarrow>
           \<forall>(key, v) \<in> set pattern.
             key_passes v (py_lookup (labels_of cause) key) (fill_kwargs kw cause))) \<and>
   (fst (matches_annotations handler cause kw) \<longleftrightarrow>
      (case annotations handler of None \<Rightarrow> True
       | Some pattern \<Rightarrow>
           \<forall>(key, v) \<in> set pattern.
             key_passes v (py_lookup (annotations_of cause) key) (fill_kwargs kw cause))) \<and>
   fst (matches_metadata [] content kw cause)"
  using matches_metadata_conv [of pattern content kw cause]
    matches_labels_conv [of handler cause kw]
    matches_annotations_conv [of handler cause kw]
  by simp

theorem metadata_match_every_key_witness:
  "fst (matches_labels
      (plain_handler\<lparr>labels := Some
         [(''env'', Plain (PStr ''prod'')), (''tier'', Token PRESENT),
          (''debug'', Token ABSENT), (''tier'', Callable (\<lambda>v kw. v = PStr ''web''))]\<rparr>)
      labelled_cause fmempty) \<and>
   \<not> fst (matches_labels (plain_handler\<lparr>labels := Some [(''env'', Plain (PStr ''dev''))]\<rparr>)
      labelled_cause fmempty) \<and>
   \<not> fst (matches_labels (plain_handler\<lparr>labels := Some [(''env'', Token ABSENT)]\<rparr>)
      labelled_cause fmempty) \<and>
   \<not> fst (matches_labels (plain_handler\<lparr>labels := Some [(''debug'', Token PRESENT)]\<rparr>)
      labelled_cause fmempty) \<and>
   fst (matches_labels (plain_handler\<lparr>labels := Some []\<rparr>) labelled_cause fmempty)"
proof -
  have l: "labels_of labelled_cause =
      PDict (fmap_of_list [(''env'', PStr ''prod''), (''tier'', PStr ''web'')])"
    by (simp add: labels_of_def sample_defs labelled_cause_def dict_get_def)
  note m = metadata_match_every_key
    [where cause = labelled_cause and pattern = "[]" and kw = fmempty]
  show ?thesis
    using
      m [where handler = "plain_handler\<lparr>labels := Some
         [(''env'', Plain (PStr ''prod'')), (''tier'', Token PRESENT),
          (''debug'', Token ABSENT), (''tier'', Callable (\<lambda>v kw. v = PStr ''web''))]\<rparr>"]
      m [where handler = "plain_handler\<lparr>labels := Some [(''env'', Plain (PStr ''dev''))]\<rparr>"]
      m [where handler = "plain_handler\<lparr>labels := Some [(''env'', Token ABSENT)]\<rparr>"]
      m [where handler = "plain_handler\<lparr>labels := Some [(''debug'', Token PRESENT)]\<rparr>"]
      m [where handler = "plain_handler\<lparr>labels := Some []\<rparr>"]
    by (simp add: l plain_handler_def)
qed

section \<open>Match and prematch on a sample\<close>

theorem match_iff_prematch_and_field_changes_witness:
  "prematch field_handler (change_cause 1 1) \<and>
   \<not> match field_handler (change_cause 1 1) \<and>
   match field_handler (change_cause 1 2)"
  using match_iff_prematch_and_field_changes [of field_handler "change_cause 1 1"]
    match_iff_prematch_and_field_changes [of field_handler "change_cause 1 2"]
  by (simp add: prematch_conv sample_defs field_handler_def change_cause_def spec_x_def predicate_defs)

section \<open>The changing registry\<close>

lemma changing_yields_conv:
  "changing_yields handler cause excluded \<longleftrightarrow>
     id' handler \<notin> excluded \<and>
     (ResourceHandler.reason handler = None \<or>
      ResourceHandler.reason handler = ResourceCause.reason cause) \<and>
     \<not> (truthy (ResourceHandler.initial handler) \<and> \<not> ResourceCause.initial cause) \<and>
     \<not> (truthy (ResourceHandler.initial handler) \<and> ResourceCause.deleted cause \<and>
        \<not> truthy (ResourceHandler.deleted handler)) \<and>
     match handler cause"
  unfolding changing_yields_def by (simp only: if_bool_eq_conj) blast

text \<open>
  C7: the changing registry yields, in the order of registration, the handlers that are
  not excluded by id, whose reason is unset or the cause's, that are not an initial
  handler on a cause that is not initial, nor an initial handler on a deleted cause
  without being marked for deletions, and that match the cause.
\<close>

theorem changing_iter_handlers_initial:
  "changing_iter_handlers handlers cause excluded =
     filter (\<lambda>handler.
        id' handler \<notin> excluded \<and>
        (ResourceHandler.reason handler = None \<or>
         ResourceHandler.reason handler = ResourceCause.reason cause) \<and>
        \<not> (truthy (ResourceHandler.initial handler) \<and> \<not> ResourceCause.initial cause) \<and>
        \<not> (truthy (ResourceHandler.initial handler) \<and> ResourceCause.deleted cause \<and>
           \<not> truthy (ResourceHandler.deleted handler)) \<and>
        match handler cause) handlers"
  unfolding changing_iter_handlers_def changing_yields_conv by (rule refl)

lemma match_plain_variants:
  "match initial_handler (plain_cause\<lparr>initial := i, deleted := d\<rparr>)"
  "match (initial_handler\<lparr>ResourceHandler.deleted := Some True\<rparr>)
     (plain_cause\<lparr>initial := i, deleted := d\<rparr>)"
  "match plain_handler (plain_cause\<lparr>initial := i, deleted := d\<rparr>)"
  by (simp_all add: match_conv sample_defs initial_handler_def predicate_defs)

theorem changing_iter_handlers_initial_witness:
  "changing_iter_handlers [initial_handler, plain_handler]
     (plain_cause\<lparr>initial := False, deleted := False\<rparr>) {} = [plain_handler] \<and>
   changing_iter_handlers [initial_handler, plain_handler]
     (plain_cause\<lparr>initial := True, deleted := False\<rparr>) {} = [initial_handler, plain_handler] \<and>
   changing_iter_handlers [initial_handler, plain_handler]
     (plain_cause\<lparr>initial := True, deleted := True\<rparr>) {} = [plain_handler] \<and>
   changing_iter_handlers [initial_handler\<lparr>ResourceHandler.deleted := Some True\<rparr>]
     (plain_cause\<lparr>initial := True, deleted := True\<rparr>) {} =
     [initial_handler\<lparr>ResourceHandler.deleted := Some True\<rparr>] \<and>
   changing_iter_handlers [plain_handler\<lparr>ResourceHandler.reason := Some CREATE\<rparr>]
     (plain_cause\<lparr>initial := True, deleted := False\<rparr>) {} = []"
proof -
  have i: "truthy (ResourceHandler.initial initial_handler)"
    "\<not> truthy (ResourceHandler.deleted initial_handler)"
    "\<not> truthy (ResourceHandler.initial plain_handler)"
    "ResourceHandler.reason initial_handler = None"
    "ResourceHandler.reason plain_handler = None"
    "ResourceCause.reason plain_cause = Some UPDATE"
    by (simp_all add: sample_defs initial_handler_def)
  show ?thesis
    unfolding changing_iter_handlers_initial
    by (simp add: match_plain_variants i)
qed

section \<open>The webhooks registry\<close>

lemma set_deduplicated_loop_subset: "set (deduplicated_loop seen src) \<subseteq> set src"
  by (induction src arbitrary: seen) (auto simp: Let_def)

lemma set_deduplicated_subset: "set (deduplicated src) \<subseteq> set src"
  by (simp add: deduplicated_def set_deduplicated_loop_subset)

lemma webhooks_yields_conv:
  "webhooks_yields handler cause excluded \<longleftrightarrow>
     id' handler \<notin> excluded \<and>
     (ResourceCause.reason cause = None \<or>
      ResourceCause.reason cause = ResourceHandler.reason handler) \<and>
     (webhook cause = None \<or> webhook cause = Some (id' handler)) \<and>
     (ResourceHandler.reason handler \<noteq> Some MUTATING \<or> operation cause \<noteq> Some ''DELETE'' \<or>
      set (case operations handler of None \<Rightarrow> [] | Some ops \<Rightarrow> ops) = {''DELETE''}) \<and>
     match handler cause"
  unfolding webhooks_yields_def matching_reason_def matching_webhook_def non_mutating_def
    non_deletion_def explicitly_for_deletion_def
  by (simp only: if_bool_eq_conj) blast

lemma webhooks_member_conv:
  "handler \<in> set (webhooks_iter_handlers handlers cause excluded) \<longleftrightarrow>
     handler \<in> set handlers \<and> webhooks_yields handler cause excluded"
  by (simp add: webhooks_iter_handlers_def)

lemma set_deduplicated_positions:
  "h \<in> set (deduplicated src) \<longleftrightarrow>
     (\<exists>i<length src. src ! i = h \<and> (\<forall>j<i. dedup_key (src ! j) \<noteq> dedup_key h))"
proof -
  have "deduplicated src =
     map (nth src)
       (filter (\<lambda>i. \<forall>j<i. dedup_key (src ! j) \<noteq> dedup_key (src ! i)) [0..<length src])"
    unfolding deduplicated_def deduplicated_loop_positions by simp
  then show ?thesis by auto
qed

lemma keys_first_occurrences:
  "dedup_key ` set (first_occurrences src) = dedup_key ` set src"
  by (induction src rule: first_occurrences.induct) auto

lemma keys_deduplicated: "dedup_key ` set (deduplicated src) = dedup_key ` set src"
  by (simp add: deduplicated_eq_first_occurrences keys_first_occurrences)

lemma first_occurrences_distinct:
  "distinct (map dedup_key src) \<Longrightarrow> first_occurrences src = src"
proof (induction src)
  case Nil
  then show ?case by simp
next
  case (Cons h hs)
  from Cons.prems have "dedup_key h \<notin> dedup_key ` set hs"
    by simp
  then have "\<forall>h' \<in> set hs. dedup_key h' \<noteq> dedup_key h"
    by (metis imageI)
  then have "filter (\<lambda>h'. dedup_key h' \<noteq> dedup_key h) hs = hs"
    by (simp add: filter_id_conv)
  with Cons show ?case by simp
qed

lemma deduplicated_distinct:
  "distinct (map dedup_key src) \<Longrightarrow> deduplicated src = src"
  by (simp add: deduplicated_eq_first_occurrences first_occurrences_distinct)

lemma webhooks_get_handlers_distinct:
  assumes "distinct (map dedup_key handlers)"
  shows "webhooks_get_handlers handlers cause excluded =
     webhooks_iter_handlers handlers cause excluded"
  unfolding webhooks_get_handlers_def webhooks_iter_handlers_def
  by (rule deduplicated_distinct) (simp add: assms distinct_map_filter)

lemma webhook_sample_facts:
  "operation webhook_cause = Some ''DELETE''"
  "ResourceCause.reason webhook_cause = Some MUTATING"
  "webhook webhook_cause = None"
  "ResourceHandler.reason delete_handler = Some MUTATING"
  "ResourceHandler.reason delete_handler_again = Some MUTATING"
  "operations delete_handler = Some [''DELETE'']"
  "operations delete_handler_again = Some [''DELETE'']"
  "fn delete_handler_again = fn delete_handler"
  "id' delete_handler_again = id' delete_handler"
  "id' delete_handler = ''fn''"
  "delete_handler_again \<noteq> delete_handler"
  by (simp_all add: sample_defs webhook_handler_def webhook_cause_def delete_handler_def
      delete_handler_again_def)

lemma match_delete_handlers:
  "match delete_handler webhook_cause" "match delete_handler_again webhook_cause"
  by (simp_all add: match_conv sample_defs webhook_handler_def webhook_cause_def
      delete_handler_def delete_handler_again_def predicate_defs)

lemma match_webhook_sample:
  "match (webhook_handler\<lparr>operations := ops\<rparr>) (webhook_cause\<lparr>operation := op\<rparr>)"
  "match (webhook_handler\<lparr>ResourceHandler.reason := r\<rparr>)
     (webhook_cause\<lparr>reason := r', operation := op\<rparr>)"
  by (simp_all add: match_conv sample_defs webhook_handler_def webhook_cause_def predicate_defs)

text \<open>
  C5 as it is worded fails on \<open>get_handlers\<close>: a mutating handler whose operations are
  exactly \<open>{DELETE}\<close> and that passes every other criterion is yielded by
  \<open>iter_handlers\<close> and still is not in \<open>get_handlers\<close>, when the same callable was
  yielded before under the same id. The deduplication keeps the earlier one.
\<close>

theorem webhooks_get_handlers_dedup_counterexample:
  "operation webhook_cause = Some ''DELETE'' \<and>
   ResourceHandler.reason delete_handler_again = Some MUTATING \<and>
   set (case operations delete_handler_again of None \<Rightarrow> [] | Some ops \<Rightarrow> ops) = {''DELETE''} \<and>
   id' delete_handler_again \<notin> {} \<and>
   matching_reason webhook_cause delete_handler_again \<and>
   matching_webhook webhook_cause delete_handler_again \<and>
   match delete_handler_again webhook_cause \<and>
   webhooks_iter_handlers [delete_handler, delete_handler_again] webhook_cause {} =
     [delete_handler, delete_handler_again] \<and>
   webhooks_get_handlers [delete_handler, delete_handler_again] webhook_cause {} =
     [delete_handler] \<and>
   delete_handler_again \<notin>
     set (webhooks_get_handlers [delete_handler, delete_handler_again] webhook_cause {})"
  by (simp add: webhook_sample_facts match_delete_handlers webhooks_get_handlers_def
      webhooks_iter_handlers_def webhooks_yields_def matching_reason_def matching_webhook_def
      non_mutating_def non_deletion_def explicitly_for_deletion_def deduplicated_def
      py_id_def Let_def)


text \<open>
  C5, amended: on a cause with the operation \<open>DELETE\<close>, a mutating webhook handler is
  yielded by \<open>iter_handlers\<close> exactly when its operations are the set \<open>{DELETE}\<close> and
  the other criteria hold; with any other operations (none declared included) it is in
  neither \<open>iter_handlers\<close> nor \<open>get_handlers\<close>. For a handler that is not mutating, or
  a cause whose operation is not \<open>DELETE\<close>, the other criteria alone decide.
  \<open>get_handlers\<close> returns the yielded handlers that are the first with their callable
  and id: a yielded handler is in it unless an earlier yielded handler has its callable
  and id, and then that one is in it; when the registered handlers differ pairwise in
  callable or id, \<open>get_handlers\<close> returns what \<open>iter_handlers\<close> yields.
\<close>

theorem webhooks_deletion_safety:
  "(operation cause = Some ''DELETE'' \<and> ResourceHandler.reason handler = Some MUTATING \<longrightarrow>
      (handler \<in> set (webhooks_iter_handlers handlers cause excluded) \<longleftrightarrow>
         set (case operations handler of None \<Rightarrow> [] | Some ops \<Rightarrow> ops) = {''DELETE''} \<and>
         handler \<in> set handlers \<and> id' handler \<notin> excluded \<and>
         matching_reason cause handler \<and> matching_webhook cause handler \<and>
         match handler cause)) \<and>
   (operation cause = Some ''DELETE'' \<and> ResourceHandler.reason handler = Some MUTATING \<and>
    set (case operations handler of None \<Rightarrow> [] | Some ops \<Rightarrow> ops) \<noteq> {''DELETE''} \<longrightarrow>
      handler \<notin> set (webhooks_iter_handlers handlers cause excluded) \<and>
      handler \<notin> set (webhooks_get_handlers handlers cause excluded)) \<and>
   (operation cause \<noteq> Some ''DELETE'' \<or> ResourceHandler.reason handler \<noteq> Some MUTATING \<longrightarrow>
      (handler \<in> set (webhooks_iter_handlers handlers cause excluded) \<longleftrightarrow>
         handler \<in> set handlers \<and> id' handler \<notin> excluded \<and>
         matching_reason cause handler \<and> matching_webhook cause handler \<and>
         match handler cause)) \<and>
   (handler \<in> set (webhooks_get_handlers handlers cause excluded) \<longleftrightarrow>
      (\<exists>i<length (webhooks_iter_handlers handlers cause excluded).
         webhooks_iter_handlers handlers cause excluded ! i = handler \<and>
         (\<forall>j<i. dedup_key (webhooks_iter_handlers handlers cause excluded ! j) \<noteq>
            dedup_key handler))) \<and>
   (handler \<in> set (webhooks_iter_handlers handlers cause excluded) \<longrightarrow>
      (\<exists>h \<in> set (webhooks_get_handlers handlers cause excluded).
         fn h = fn handler \<and> id' h = id' handler)) \<and>
   (distinct (map dedup_key handlers) \<longrightarrow>
      webhooks_get_handlers handlers cause excluded =
      webhooks_iter_handlers handlers cause excluded)"
proof -
  let ?ys = "webhooks_iter_handlers handlers cause excluded"
  have sub: "handler \<notin> set (webhooks_get_handlers handlers cause excluded)"
    if "handler \<notin> set ?ys"
    using that set_deduplicated_subset [of ?ys]
    by (auto simp: webhooks_get_handlers_def)
  have iter: "handler \<in> set ?ys \<longleftrightarrow>
      handler \<in> set handlers \<and> id' handler \<notin> excluded \<and>
      matching_reason cause handler \<and> matching_webhook cause handler \<and>
      (ResourceHandler.reason handler \<noteq> Some MUTATING \<or> operation cause \<noteq> Some ''DELETE'' \<or>
       set (case operations handler of None \<Rightarrow> [] | Some ops \<Rightarrow> ops) = {''DELETE''}) \<and>
      match handler cause"
    unfolding webhooks_member_conv webhooks_yields_conv matching_reason_def
      matching_webhook_def
    by blast
  have first: "handler \<in> set (webhooks_get_handlers handlers cause excluded) \<longleftrightarrow>
      (\<exists>i<length ?ys. ?ys ! i = handler \<and>
         (\<forall>j<i. dedup_key (?ys ! j) \<noteq> dedup_key handler))"
    unfolding webhooks_get_handlers_def by (rule set_deduplicated_positions)
  have same: "\<exists>h \<in> set (webhooks_get_handlers handlers cause excluded).
      fn h = fn handler \<and> id' h = id' handler" if "handler \<in> set ?ys"
  proof -
    from that have "dedup_key handler \<in> dedup_key ` set (deduplicated ?ys)"
      by (simp add: keys_deduplicated)
    then obtain h where "h \<in> set (deduplicated ?ys)" and "dedup_key h = dedup_key handler"
      by auto
    then show ?thesis
      by (auto simp: webhooks_get_handlers_def dedup_key_def py_id_def)
  qed
  have dist: "webhooks_get_handlers handlers cause excluded = ?ys"
    if "distinct (map dedup_key handlers)"
    using that by (rule webhooks_get_handlers_distinct)
  have one: "operation cause = Some ''DELETE'' \<and> ResourceHandler.reason handler = Some MUTATING \<longrightarrow>
      (handler \<in> set ?ys \<longleftrightarrow>
         set (case operations handler of None \<Rightarrow> [] | Some ops \<Rightarrow> ops) = {''DELETE''} \<and>
         handler \<in> set handlers \<and> id' handler \<notin> excluded \<and>
         matching_reason cause handler \<and> matching_webhook cause handler \<and>
         match handler cause)"
    unfolding iter by blast
  have two: "operation cause = Some ''DELETE'' \<and> ResourceHandler.reason handler = Some MUTATING \<and>
      set (case operations handler of None \<Rightarrow> [] | Some ops \<Rightarrow> ops) \<noteq> {''DELETE''} \<longrightarrow>
      handler \<notin> set ?ys \<and> handler \<notin> set (webhooks_get_handlers handlers cause excluded)"
    using sub unfolding iter by blast
  have three: "operation cause \<noteq> Some ''DELETE'' \<or> ResourceHandler.reason handler \<noteq> Some MUTATING \<longrightarrow>
      (handler \<in> set ?ys \<longleftrightarrow>
         handler \<in> set handlers \<and> id' handler \<notin> excluded \<and>
         matching_reason cause handler \<and> matching_webhook cause handler \<and>
         match handler cause)"
    unfolding iter by blast
  show ?thesis
    using one two three first same dist by (intro conjI impI) blast+
qed

theorem webhooks_deletion_safety_witness:
  "webhook_handler \<notin> set (webhooks_iter_handlers [webhook_handler] webhook_cause {}) \<and>
   webhook_handler \<notin> set (webhooks_get_handlers [webhook_handler] webhook_cause {}) \<and>
   delete_handler \<in> set (webhooks_iter_handlers [delete_handler] webhook_cause {}) \<and>
   delete_handler \<in> set (webhooks_get_handlers [delete_handler] webhook_cause {}) \<and>
   webhooks_get_handlers [delete_handler] webhook_cause {} = [delete_handler] \<and>
   webhook_handler \<in>
     set (webhooks_get_handlers [webhook_handler]
       (webhook_cause\<lparr>operation := Some ''UPDATE''\<rparr>) {})"
proof -
  have f: "operations webhook_handler = None"
    "ResourceHandler.reason webhook_handler = Some MUTATING"
    "matching_reason webhook_cause delete_handler"
    "matching_webhook webhook_cause delete_handler"
    "matching_reason (webhook_cause\<lparr>operation := Some ''UPDATE''\<rparr>) webhook_handler"
    "matching_webhook (webhook_cause\<lparr>operation := Some ''UPDATE''\<rparr>) webhook_handler"
    "operation (webhook_cause\<lparr>operation := Some ''UPDATE''\<rparr>) = Some ''UPDATE''"
    "match webhook_handler (webhook_cause\<lparr>operation := Some ''UPDATE''\<rparr>)"
    using match_webhook_sample(1) [of None "Some ''UPDATE''"]
    by (simp_all add: matching_reason_def matching_webhook_def sample_defs
        webhook_handler_def webhook_cause_def delete_handler_def)
  note a = webhooks_deletion_safety [of webhook_cause webhook_handler "[webhook_handler]" "{}"]
  note b = webhooks_deletion_safety [of webhook_cause delete_handler "[delete_handler]" "{}"]
  note c = webhooks_deletion_safety
    [of "webhook_cause\<lparr>operation := Some ''UPDATE''\<rparr>" webhook_handler "[webhook_handler]" "{}"]
  have 1: "webhook_handler \<notin> set (webhooks_iter_handlers [webhook_handler] webhook_cause {})"
    "webhook_handler \<notin> set (webhooks_get_handlers [webhook_handler] webhook_cause {})"
    using a [THEN conjunct2, THEN conjunct1] by (simp_all add: f webhook_sample_facts)
  have 2: "delete_handler \<in> set (webhooks_iter_handlers [delete_handler] webhook_cause {})"
    using b [THEN conjunct1] by (simp add: f webhook_sample_facts match_delete_handlers)
  have d: "distinct (map dedup_key [h])" for h :: ResourceHandler
    by simp
  have 3: "webhooks_get_handlers [delete_handler] webhook_cause {} =
      webhooks_iter_handlers [delete_handler] webhook_cause {}"
    using b [THEN conjunct2, THEN conjunct2, THEN conjunct2, THEN conjunct2, THEN conjunct2] d
    by blast
  have 4: "webhooks_iter_handlers [delete_handler] webhook_cause {} = [delete_handler]"
    using 2 by (simp add: webhooks_iter_handlers_def split: if_splits)
  have 5: "webhook_handler \<in> set (webhooks_iter_handlers [webhook_handler]
       (webhook_cause\<lparr>operation := Some ''UPDATE''\<rparr>) {})"
    using c [THEN conjunct2, THEN conjunct2, THEN conjunct1] by (simp add: f)
  have 6: "webhooks_get_handlers [webhook_handler]
       (webhook_cause\<lparr>operation := Some ''UPDATE''\<rparr>) {} =
      webhooks_iter_handlers [webhook_handler]
       (webhook_cause\<lparr>operation := Some ''UPDATE''\<rparr>) {}"
    using c [THEN conjunct2, THEN conjunct2, THEN conjunct2, THEN conjunct2, THEN conjunct2] d
    by blast
  show ?thesis
    using 1 2 5 by (simp add: 3 4 6)
qed

text \<open>
  C2 as the spec words it fails on the code: a webhook handler with no reason is left out
  for a cause that has a reason, though nothing else speaks against it; and a handler with
  a reason is yielded for a cause with no reason, though its reason is neither unset nor
  the cause's.
\<close>

theorem webhooks_reason_unset_handler_counterexample:
  "ResourceHandler.reason (webhook_handler\<lparr>ResourceHandler.reason := None\<rparr>) = None \<and>
   match (webhook_handler\<lparr>ResourceHandler.reason := None\<rparr>)
     (webhook_cause\<lparr>operation := Some ''CREATE''\<rparr>) \<and>
   \<not> matching_reason (webhook_cause\<lparr>operation := Some ''CREATE''\<rparr>)
     (webhook_handler\<lparr>ResourceHandler.reason := None\<rparr>) \<and>
   webhooks_iter_handlers [webhook_handler\<lparr>ResourceHandler.reason := None\<rparr>]
     (webhook_cause\<lparr>operation := Some ''CREATE''\<rparr>) {} = [] \<and>
   ResourceHandler.reason webhook_handler \<noteq> None \<and>
   ResourceHandler.reason webhook_handler \<noteq>
     ResourceCause.reason (webhook_cause\<lparr>reason := None, operation := Some ''CREATE''\<rparr>) \<and>
   matching_reason (webhook_cause\<lparr>reason := None, operation := Some ''CREATE''\<rparr>)
     webhook_handler \<and>
   webhooks_iter_handlers [webhook_handler]
     (webhook_cause\<lparr>reason := None, operation := Some ''CREATE''\<rparr>) {} = [webhook_handler]"
proof -
  have m: "match (webhook_handler\<lparr>ResourceHandler.reason := None\<rparr>)
      (webhook_cause\<lparr>operation := Some ''CREATE''\<rparr>)"
    "match webhook_handler (webhook_cause\<lparr>reason := None, operation := Some ''CREATE''\<rparr>)"
    by (simp_all add: match_conv sample_defs webhook_handler_def webhook_cause_def predicate_defs)
  have r: "\<not> matching_reason (webhook_cause\<lparr>operation := Some ''CREATE''\<rparr>)
      (webhook_handler\<lparr>ResourceHandler.reason := None\<rparr>)"
    "matching_reason (webhook_cause\<lparr>reason := None, operation := Some ''CREATE''\<rparr>)
      webhook_handler"
    "matching_webhook (webhook_cause\<lparr>reason := None, operation := Some ''CREATE''\<rparr>)
      webhook_handler"
    "non_deletion (webhook_cause\<lparr>reason := None, operation := Some ''CREATE''\<rparr>)"
    by (simp_all add: matching_reason_def matching_webhook_def non_deletion_def sample_defs webhook_handler_def webhook_cause_def)
  have f: "ResourceHandler.reason (webhook_handler\<lparr>ResourceHandler.reason := None\<rparr>) = None"
    "ResourceHandler.reason webhook_handler \<noteq> None"
    "ResourceHandler.reason webhook_handler \<noteq>
     ResourceCause.reason (webhook_cause\<lparr>reason := None, operation := Some ''CREATE''\<rparr>)"
    by (simp_all add: sample_defs webhook_handler_def webhook_cause_def)
  show ?thesis
    using m r f by (simp add: webhooks_iter_handlers_def webhooks_yields_def)
qed

text \<open>
  C2, amended: a webhook handler is reason-compatible exactly when the cause's reason is
  unset or equals the handler's reason. A cause with no reason leaves out no handler on
  the ground of the reason; a handler with no reason is yielded only for a cause with no
  reason.
\<close>

theorem webhooks_reason_compatibility:
  "(handler \<in> set (webhooks_iter_handlers handlers cause excluded) \<longleftrightarrow>
      handler \<in> set handlers \<and> id' handler \<notin> excluded \<and>
      (ResourceCause.reason cause = None \<or>
       ResourceCause.reason cause = ResourceHandler.reason handler) \<and>
      matching_webhook cause handler \<and>
      (non_mutating handler \<or> non_deletion cause \<or> explicitly_for_deletion handler) \<and>
      match handler cause) \<and>
   (matching_reason cause handler \<longleftrightarrow>
      ResourceCause.reason cause = None \<or>
      ResourceCause.reason cause = ResourceHandler.reason handler) \<and>
   (ResourceHandler.reason handler = None \<and> ResourceCause.reason cause \<noteq> None \<longrightarrow>
      handler \<notin> set (webhooks_iter_handlers handlers cause excluded))"
  unfolding webhooks_member_conv webhooks_yields_conv matching_reason_def
    matching_webhook_def non_mutating_def non_deletion_def explicitly_for_deletion_def
  by auto

theorem webhooks_reason_compatibility_witness:
  "webhook_handler \<in> set (webhooks_iter_handlers [webhook_handler]
      (webhook_cause\<lparr>operation := Some ''CREATE''\<rparr>) {}) \<and>
   webhook_handler\<lparr>ResourceHandler.reason := Some VALIDATING\<rparr> \<notin>
     set (webhooks_iter_handlers [webhook_handler\<lparr>ResourceHandler.reason := Some VALIDATING\<rparr>]
      (webhook_cause\<lparr>operation := Some ''CREATE''\<rparr>) {}) \<and>
   webhook_handler\<lparr>ResourceHandler.reason := Some VALIDATING\<rparr> \<in>
     set (webhooks_iter_handlers [webhook_handler\<lparr>ResourceHandler.reason := Some VALIDATING\<rparr>]
      (webhook_cause\<lparr>reason := None, operation := Some ''CREATE''\<rparr>) {})"
proof -
  have m: "match (webhook_handler\<lparr>ResourceHandler.reason := r\<rparr>)
      (webhook_cause\<lparr>reason := r', operation := op\<rparr>)"
    "match webhook_handler (webhook_cause\<lparr>operation := op\<rparr>)" for r r' op
    by (simp_all add: match_conv sample_defs webhook_handler_def webhook_cause_def predicate_defs)
  have f: "ResourceCause.reason (webhook_cause\<lparr>operation := op\<rparr>) = Some MUTATING"
    "ResourceHandler.reason webhook_handler = Some MUTATING"
    "matching_webhook (webhook_cause\<lparr>operation := op\<rparr>) h"
    "matching_webhook (webhook_cause\<lparr>reason := r', operation := op\<rparr>) h"
    "non_deletion (webhook_cause\<lparr>operation := Some ''CREATE''\<rparr>)"
    "non_deletion (webhook_cause\<lparr>reason := r', operation := Some ''CREATE''\<rparr>)"
    for op r' h
    by (simp_all add: matching_webhook_def non_deletion_def sample_defs webhook_handler_def webhook_cause_def)
  have e: "webhook_cause\<lparr>operation := Some ''CREATE''\<rparr> =
      webhook_cause\<lparr>reason := Some MUTATING, operation := Some ''CREATE''\<rparr>"
    by (simp add: sample_defs webhook_handler_def webhook_cause_def)
  show ?thesis
    using
      webhooks_reason_compatibility [of webhook_handler "[webhook_handler]"
        "webhook_cause\<lparr>operation := Some ''CREATE''\<rparr>" "{}"]
      webhooks_reason_compatibility
        [of "webhook_handler\<lparr>ResourceHandler.reason := Some VALIDATING\<rparr>"
          "[webhook_handler\<lparr>ResourceHandler.reason := Some VALIDATING\<rparr>]"
          "webhook_cause\<lparr>operation := Some ''CREATE''\<rparr>" "{}"]
      webhooks_reason_compatibility
        [of "webhook_handler\<lparr>ResourceHandler.reason := Some VALIDATING\<rparr>"
          "[webhook_handler\<lparr>ResourceHandler.reason := Some VALIDATING\<rparr>]"
          "webhook_cause\<lparr>reason := None, operation := Some ''CREATE''\<rparr>" "{}"]
    by (simp add: m f e [symmetric])
qed

section \<open>Resources with handlers\<close>

lemma has_handlers_conv:
  "has_handlers handlers res \<longleftrightarrow> (\<exists>h \<in> set handlers. matches_resource h res)"
  by (induction handlers) auto

lemma get_all_selectors_conv:
  "get_all_selectors handlers = {s. \<exists>h \<in> set handlers. selector h = Some s}"
proof -
  have "set (List.map_filter f xs) = {y. \<exists>x \<in> set xs. f x = Some y}"
    for f :: "'a \<Rightarrow> 'b option" and xs
    by (induction xs) (auto simp: map_filter_simps split: option.splits)
  then show ?thesis
    by (simp add: get_all_selectors_def get_all_handlers_def)
qed

text \<open>
  C10: \<open>has_handlers\<close> holds of a resource exactly when some registered handler has no
  selector or a selector that accepts the resource. A registry with a handler without a
  selector has handlers for every resource, while \<open>get_all_selectors\<close> is the set of the
  selectors that are given, so it has no entry for that handler.
\<close>

theorem has_handlers_selector_none:
  "(has_handlers handlers res \<longleftrightarrow>
      (\<exists>h \<in> set handlers. selector h = None \<or> (\<exists>s. selector h = Some s \<and> check s res))) \<and>
   ((\<exists>h \<in> set handlers. selector h = None) \<longrightarrow> has_handlers handlers res) \<and>
   get_all_selectors handlers = {s. \<exists>h \<in> set handlers. selector h = Some s} \<and>
   ((\<forall>h \<in> set handlers. selector h = None) \<longrightarrow> get_all_selectors handlers = {})"
proof -
  have "matches_resource h res \<longleftrightarrow>
      selector h = None \<or> (\<exists>s. selector h = Some s \<and> check s res)" for h
    by (cases "selector h") (simp_all add: matches_resource_def)
  then show ?thesis
    unfolding has_handlers_conv get_all_selectors_conv by auto
qed

theorem has_handlers_selector_none_witness:
  "has_handlers [plain_handler]
     \<lparr>group = ''kopf.dev'', version = ''v1'', plural = ''kopfexamples''\<rparr> \<and>
   get_all_selectors [plain_handler] = {} \<and>
   \<not> has_handlers [plain_handler\<lparr>selector := Some pods\<rparr>]
     \<lparr>group = ''kopf.dev'', version = ''v1'', plural = ''kopfexamples''\<rparr> \<and>
   has_handlers [plain_handler\<lparr>selector := Some pods\<rparr>]
     \<lparr>group = [], version = ''v1'', plural = ''pods''\<rparr> \<and>
   get_all_selectors [plain_handler\<lparr>selector := Some pods\<rparr>, plain_handler] = {pods}"
  using
    has_handlers_selector_none [of "[plain_handler]"
      "\<lparr>group = ''kopf.dev'', version = ''v1'', plural = ''kopfexamples''\<rparr>"]
    has_handlers_selector_none [of "[plain_handler\<lparr>selector := Some pods\<rparr>]"
      "\<lparr>group = ''kopf.dev'', version = ''v1'', plural = ''kopfexamples''\<rparr>"]
    has_handlers_selector_none [of "[plain_handler\<lparr>selector := Some pods\<rparr>]"
      "\<lparr>group = [], version = ''v1'', plural = ''pods''\<rparr>"]
    has_handlers_selector_none [of "[plain_handler\<lparr>selector := Some pods\<rparr>, plain_handler]"]
  by (auto simp: plain_handler_def pods_def check_def)

section \<open>Identifiers\<close>

text \<open>
  C9: \<open>generate_id\<close> takes the explicit id when one is given and the id of the callable
  otherwise, appends a suffix as \<open>id/suffix\<close>, then prepends a prefix as \<open>prefix/id\<close>,
  so that both give \<open>prefix/id/suffix\<close> (a prefix or suffix is given when it is a
  string that is not empty). The id of a named function is its qualified name, whatever
  else the function object holds, so deriving it again gives the same string. With no
  explicit id and \<open>None\<close> for the callable it fails with the \<open>ValueError\<close> for a
  callable that has no id.
\<close>

theorem generate_id_layout:
  "((case given of Some i \<Rightarrow> Inr i | None \<Rightarrow> get_callable_id c) = Inr real_id \<longrightarrow>
      generate_id c given None None = Inr real_id \<and>
      (suf \<noteq> [] \<longrightarrow> generate_id c given None (Some suf) = Inr (real_id @ ''/'' @ suf)) \<and>
      (pre \<noteq> [] \<longrightarrow> generate_id c given (Some pre) None = Inr (pre @ ''/'' @ real_id)) \<and>
      (pre \<noteq> [] \<and> suf \<noteq> [] \<longrightarrow>
         generate_id c given (Some pre) (Some suf) =
           Inr (pre @ ''/'' @ real_id @ ''/'' @ suf))) \<and>
   generate_id c (Some i) None None = Inr i \<and>
   (name \<noteq> ''<lambda>'' \<longrightarrow>
      generate_id (Function name qualname path line) None None None = Inr qualname) \<and>
   generate_id NoneObj None pre' suf' =
     Inl (ValueError ''Cannot build a persistent id of None.'')"
  by (simp add: generate_id_def)

theorem generate_id_layout_witness:
  "generate_id (Function ''create_fn'' ''Operator.create_fn'' ''operator.py'' 12)
     None (Some ''parent'') (Some ''sub'') = Inr ''parent/Operator.create_fn/sub'' \<and>
   generate_id (Function ''create_fn'' ''Operator.create_fn'' ''operator.py'' 12)
     (Some ''explicit'') (Some ''parent'') (Some ''sub'') = Inr ''parent/explicit/sub'' \<and>
   generate_id (Function ''create_fn'' ''Operator.create_fn'' ''operator.py'' 12)
     None None None = Inr ''Operator.create_fn'' \<and>
   generate_id NoneObj None (Some ''parent'') None =
     Inl (ValueError ''Cannot build a persistent id of None.'')"
  using
    generate_id_layout [where given = None
      and c = "Function ''create_fn'' ''Operator.create_fn'' ''operator.py'' 12"
      and real_id = "''Operator.create_fn''" and suf = "''sub''" and pre = "''parent''"
      and name = "''create_fn''" and qualname = "''Operator.create_fn''"
      and pre' = "Some ''parent''" and suf' = None]
    generate_id_layout [where given = "Some ''explicit''"
      and c = "Function ''create_fn'' ''Operator.create_fn'' ''operator.py'' 12"
      and real_id = "''explicit''" and suf = "''sub''" and pre = "''parent''"]
  by simp

section \<open>The activity registry\<close>

lemma regular_loop_conv:
  "regular_loop handlers act found =
     (filter (\<lambda>h. activity h = None \<or> (activity h = Some act \<and> \<not> fallback h)) handlers,
      found \<or> (\<exists>h \<in> set handlers.
         activity h = None \<or> (activity h = Some act \<and> \<not> fallback h)))"
  by (induction handlers arbitrary: found) auto

lemma fallback_loop_conv:
  "fallback_loop handlers act =
     filter (\<lambda>h. activity h = None \<or> (activity h = Some act \<and> fallback h)) handlers"
  by (induction handlers) auto

text \<open>
  What the registry does: the handlers without an activity go with the regular ones,
  whether they are fallbacks or not.
\<close>

lemma activity_iter_handlers_conv:
  "activity_iter_handlers handlers act =
     (if \<exists>h \<in> set handlers. activity h = None \<or> (activity h = Some act \<and> \<not> fallback h)
      then filter (\<lambda>h. activity h = None \<or> (activity h = Some act \<and> \<not> fallback h)) handlers
      else filter (\<lambda>h. activity h = Some act \<and> fallback h) handlers)"
proof (cases "\<exists>h \<in> set handlers. activity h = None \<or> (activity h = Some act \<and> \<not> fallback h)")
  case True
  then show ?thesis
    by (simp only: activity_iter_handlers_def regular_loop_conv prod.case simp_thms if_False
        if_True)
next
  case False
  then have none: "filter (\<lambda>h. activity h = None \<or> (activity h = Some act \<and> \<not> fallback h))
      handlers = []"
    by (simp add: filter_empty_conv)
  have "filter (\<lambda>h. activity h = None \<or> (activity h = Some act \<and> fallback h)) handlers =
      filter (\<lambda>h. activity h = Some act \<and> fallback h) handlers"
    using False by (intro filter_cong) auto
  then show ?thesis
    using False
    by (simp only: activity_iter_handlers_def regular_loop_conv fallback_loop_conv prod.case
        none simp_thms if_True if_False append_Nil)
qed

text \<open>
  When every fallback handler carries an activity, the two tiers are those of the spec:
  the regular handlers whose activity is unset or the requested one, and the fallback
  handlers under the same rule only when there is no such regular handler.
\<close>

lemma activity_tiers_when_fallbacks_tagged:
  assumes "\<forall>h \<in> set handlers. fallback h \<longrightarrow> activity h \<noteq> None"
  shows "activity_iter_handlers handlers act =
     (if \<exists>h \<in> set handlers. \<not> fallback h \<and> (activity h = None \<or> activity h = Some act)
      then filter (\<lambda>h. \<not> fallback h \<and> (activity h = None \<or> activity h = Some act)) handlers
      else filter (\<lambda>h. fallback h \<and> (activity h = None \<or> activity h = Some act)) handlers)"
proof -
  have a: "(activity h = None \<or> (activity h = Some act \<and> \<not> fallback h)) \<longleftrightarrow>
      \<not> fallback h \<and> (activity h = None \<or> activity h = Some act)" if "h \<in> set handlers" for h
    using assms that by auto
  have b: "(activity h = Some act \<and> fallback h) \<longleftrightarrow>
      fallback h \<and> (activity h = None \<or> activity h = Some act)" if "h \<in> set handlers" for h
    using assms that by auto
  have "filter (\<lambda>h. activity h = None \<or> (activity h = Some act \<and> \<not> fallback h)) handlers =
      filter (\<lambda>h. \<not> fallback h \<and> (activity h = None \<or> activity h = Some act)) handlers"
    using a by (intro filter_cong) auto
  moreover have "filter (\<lambda>h. activity h = Some act \<and> fallback h) handlers =
      filter (\<lambda>h. fallback h \<and> (activity h = None \<or> activity h = Some act)) handlers"
    using b by (intro filter_cong) auto
  moreover have "(\<exists>h \<in> set handlers. activity h = None \<or> (activity h = Some act \<and> \<not> fallback h)) \<longleftrightarrow>
      (\<exists>h \<in> set handlers. \<not> fallback h \<and> (activity h = None \<or> activity h = Some act))"
    using a by blast
  ultimately show ?thesis
    unfolding activity_iter_handlers_conv by (simp only:)
qed

text \<open>
  C1 on the code: a fallback handler without an activity is yielded together with a
  regular handler of the requested activity, by \<open>iter_handlers\<close> and by
  \<open>get_handlers\<close>, though the regular handler matches. And when all the handlers are
  fallbacks, the one without an activity counts as found, so the fallback handler of the
  requested activity is not yielded.
\<close>

theorem activity_fallback_without_activity_is_yielded:
  "fallback fallback_login \<and> \<not> fallback user_login \<and>
   activity user_login = Some AUTHENTICATION \<and>
   activity_iter_handlers [fallback_login, user_login] AUTHENTICATION =
     [fallback_login, user_login] \<and>
   activity_get_handlers [fallback_login, user_login] AUTHENTICATION =
     [fallback_login, user_login] \<and>
   activity_iter_handlers
     [fallback_login, user_login\<lparr>fallback := True\<rparr>] AUTHENTICATION = [fallback_login]"
  by (simp add: activity_get_handlers_def activity_iter_handlers_def deduplicated_def
      fallback_login_def user_login_def py_id_def Let_def)

end
